theory Spec2Isabelle
  imports Main "HOL-Library.Word"
begin

unbundle bit_operations_syntax

section \<open>The region allocator of \<^verbatim>\<open>src/dbcore/sm-alloc.cpp\<close>\<close>

text \<open>
  All offsets, capacities and masks of the allocator are \<^verbatim>\<open>uint64_t\<close>: 64-bit words
  whose arithmetic wraps around. Pointers into the hot and the cold region are modelled
  by their byte offset from \<^verbatim>\<open>_hot_data\<close> and \<^verbatim>\<open>_cold_data\<close>.
\<close>

type_synonym u64 = "64 word"

text \<open>The GC states are preprocessor constants stored in an \<^verbatim>\<open>int\<close> field.\<close>

definition RA_NORMAL :: int where "RA_NORMAL = 0"
definition RA_GC_REQUESTED :: int where "RA_GC_REQUESTED = 1"
definition RA_GC_IN_PROG :: int where "RA_GC_IN_PROG = 2"
definition RA_GC_FINISHED :: int where "RA_GC_FINISHED = 3"

definition NUM_SEGMENT_BITS :: u64 where "NUM_SEGMENT_BITS = 2"

definition TRIM_MARK :: u64 where "TRIM_MARK = 16 * 1024 * 1024"

record region_allocator =
  segment_bits :: u64
  hot_bits :: u64
  hot_capacity :: u64
  cold_capacity :: u64
  hot_mask :: u64
  cold_mask :: u64
  reclaimed_offset :: u64
  socket :: int
  allocated_hot_offset :: u64
  allocated_cold_offset :: u64
  allocated :: u64
  state :: int

text \<open>
  The constructor. \<^verbatim>\<open>uint64_t{1} << n\<close> is \<open>push_bit n 1\<close> on a 64-bit word; C++
  leaves the shift undefined for \<open>n \<ge> 64\<close>, so the theorems about constructed
  allocators take \<open>one_segment_bits < 62\<close> (then \<open>_hot_bits < 64\<close>).
\<close>

definition region_allocator :: "u64 \<Rightarrow> int \<Rightarrow> region_allocator" where
  "region_allocator one_segment_bits skt =
     (let sbits = one_segment_bits;
          hbits = NUM_SEGMENT_BITS + sbits;
          hcap = push_bit (unat hbits) (1 :: u64);
          ccap = push_bit (unat sbits) (1 :: u64) * 2
      in \<lparr> segment_bits = sbits,
           hot_bits = hbits,
           hot_capacity = hcap,
           cold_capacity = ccap,
           hot_mask = hcap - 1,
           cold_mask = ccap - 1,
           reclaimed_offset = hcap,
           socket = skt,
           allocated_hot_offset = 0,
           allocated_cold_offset = 0,
           allocated = 0,
           state = RA_NORMAL \<rparr>)"

text \<open>
  The two exceptions \<^verbatim>\<open>region_allocator::allocate\<close> throws: \<^verbatim>\<open>std::bad_alloc\<close>
  (out of memory) and \<^verbatim>\<open>std::runtime_error\<close> (a GC requested before the last round
  finished).
\<close>

datatype alloc_error = bad_alloc | runtime_error

text \<open>
  \<^verbatim>\<open>region_allocator::allocate\<close>. The \<^verbatim>\<open>goto retry\<close> is the recursive call. An
  exception leaves every write made before it in place, so the allocator is returned
  in both outcomes. The epoch manager is not part of these sources: the parameter
  \<open>new_epoch\<close> is the outcome of
  \<^verbatim>\<open>ra_epochs.new_epoch_possible() && ra_epochs.new_epoch()\<close>.
\<close>

function allocate :: "region_allocator \<Rightarrow> u64 \<Rightarrow> bool \<Rightarrow> (alloc_error + u64) \<times> region_allocator" where
  "allocate r sz new_epoch =
     (let noffset = allocated_hot_offset r + sz;
          r1 = r\<lparr>allocated_hot_offset := noffset\<rparr>
      in if reclaimed_offset r1 < noffset then (Inl bad_alloc, r1)
         else
           let r2 = r1\<lparr>allocated := allocated r1 + sz\<rparr>;
               sbits = segment_bits r2
           in if drop_bit (unat sbits) (noffset - 1) \<noteq> drop_bit (unat sbits) (noffset - sz)
              then (if state r2 \<noteq> RA_NORMAL then (Inl runtime_error, r2)
                    else allocate (r2\<lparr>state := RA_GC_REQUESTED\<rparr>) sz new_epoch)
              else
                let r3 = (if TRIM_MARK \<le> allocated r2 \<and> new_epoch
                          then r2\<lparr>allocated := allocated r2 + (- allocated r2)\<rparr>
                          else r2)
                in (Inr ((noffset - sz) AND hot_mask r3), r3))"
  by pat_completeness auto
termination
  by (relation "measure (\<lambda>(r, sz, new_epoch). if state r = RA_NORMAL then 1 else 0)")
     (auto simp: RA_NORMAL_def RA_GC_REQUESTED_def)

declare allocate.simps [simp del]

text \<open>
  The test of \<^verbatim>\<open>allocate\<close> for a chunk that crosses a segment boundary, with a name:
  \<^verbatim>\<open>((noffset-1) >> sbits) != ((noffset-size) >> sbits)\<close>.
\<close>

definition spans :: "region_allocator \<Rightarrow> u64 \<Rightarrow> u64 \<Rightarrow> bool" where
  "spans r noffset sz \<longleftrightarrow>
     drop_bit (unat (segment_bits r)) (noffset - 1) \<noteq>
     drop_bit (unat (segment_bits r)) (noffset - sz)"

text \<open>\<^verbatim>\<open>region_allocator::allocate_cold\<close>.\<close>

definition allocate_cold :: "region_allocator \<Rightarrow> u64 \<Rightarrow> (alloc_error + u64) \<times> region_allocator" where
  "allocate_cold r sz =
     (let noffset = allocated_cold_offset r + sz;
          r1 = r\<lparr>allocated_cold_offset := noffset\<rparr>
      in if cold_capacity r1 < noffset then (Inl bad_alloc, r1)
         else (Inr ((noffset - sz) AND cold_mask r1), r1))"

text \<open>
  A sequence of calls of \<^verbatim>\<open>allocate_cold\<close> on one allocator, with the outcome of each
  call (a call that throws does not stop the later ones).
\<close>

fun allocate_cold_seq :: "region_allocator \<Rightarrow> u64 list \<Rightarrow> (alloc_error + u64) list" where
  "allocate_cold_seq r [] = []"
| "allocate_cold_seq r (sz # szs) =
     fst (allocate_cold r sz) # allocate_cold_seq (snd (allocate_cold r sz)) szs"

text \<open>
  The last two statements of one round of \<^verbatim>\<open>region_allocator::reclaim_daemon\<close>: the
  daemon asserts that the allocator is in \<^verbatim>\<open>RA_GC_IN_PROG\<close> and moves it to
  \<^verbatim>\<open>RA_GC_FINISHED\<close>. \<open>None\<close> is the failed assertion.
\<close>

definition reclaim_daemon_finish :: "region_allocator \<Rightarrow> region_allocator option" where
  "reclaim_daemon_finish r =
     (if state r = RA_GC_IN_PROG then Some (r\<lparr>state := RA_GC_FINISHED\<rparr>) else None)"


subsection \<open>The epoch callbacks of namespace \<^verbatim>\<open>RA\<close>\<close>

text \<open>
  An \<^verbatim>\<open>LSN\<close> is a 64-bit value. Its declaration and the constant \<^verbatim>\<open>INVALID_LSN\<close> are
  not part of these sources, so the callbacks take \<open>INVALID_LSN\<close> as a parameter, and
  the theorems hold for every value of it. The globals the callbacks use are the array
  \<^verbatim>\<open>ra\<close> of per-socket allocators (\<^verbatim>\<open>ra_nsock\<close> is its length) and \<^verbatim>\<open>trim_lsn\<close>.
\<close>

type_synonym LSN = "64 word"

record RA =
  ra :: "region_allocator list"
  trim_lsn :: LSN

text \<open>
  \<^verbatim>\<open>RA::epoch_ended\<close>: the loop over the sockets returns at the first allocator in
  \<^verbatim>\<open>RA_GC_REQUESTED\<close> or \<^verbatim>\<open>RA_GC_FINISHED\<close>. The cookie is a freshly allocated
  \<^verbatim>\<open>LSN\<close>, \<open>Some lsn\<close> here, and \<open>None\<close> is the \<^verbatim>\<open>NULL\<close> cookie. The parameters
  \<open>rcu_is_active\<close> and \<open>cur_lsn\<close> are the results of \<^verbatim>\<open>RCU::rcu_is_active()\<close> and
  \<^verbatim>\<open>transaction_base::logger->cur_lsn()\<close>.
\<close>

fun epoch_ended_loop :: "region_allocator list \<Rightarrow> bool \<Rightarrow> LSN \<Rightarrow> LSN \<Rightarrow> LSN option" where
  "epoch_ended_loop [] rcu_is_active cur_lsn INVALID_LSN = None"
| "epoch_ended_loop (r # rs) rcu_is_active cur_lsn INVALID_LSN =
     (let s = state r
      in if s = RA_GC_REQUESTED \<or> s = RA_GC_FINISHED
         then Some (if rcu_is_active then cur_lsn else INVALID_LSN)
         else epoch_ended_loop rs rcu_is_active cur_lsn INVALID_LSN)"

definition epoch_ended :: "RA \<Rightarrow> bool \<Rightarrow> LSN \<Rightarrow> LSN \<Rightarrow> LSN option" where
  "epoch_ended g rcu_is_active cur_lsn INVALID_LSN =
     epoch_ended_loop (ra g) rcu_is_active cur_lsn INVALID_LSN"

text \<open>
  The body of the loop of \<^verbatim>\<open>RA::epoch_reclaimed\<close> for one allocator. In
  \<^verbatim>\<open>r->_reclaimed_offset + (1 << r->_segment_bits)\<close> the literal \<^verbatim>\<open>1\<close> is an
  \<^verbatim>\<open>int\<close>: the shift is done in 32 bits, and its signed result is converted to
  \<^verbatim>\<open>uint64_t\<close> (sign-extended, \<open>scast\<close>) for the addition. A count of 31 gives
  \<^verbatim>\<open>INT_MIN\<close>; C++ leaves counts of 32 and more undefined, where \<open>push_bit\<close> gives 0,
  and no theorem below depends on the value for such a count.
\<close>

definition epoch_reclaimed_ra :: "region_allocator \<Rightarrow> region_allocator" where
  "epoch_reclaimed_ra r =
     (let s = state r
      in if s = RA_GC_REQUESTED then r\<lparr>state := RA_GC_IN_PROG\<rparr>
         else if s = RA_GC_FINISHED
         then (r\<lparr>reclaimed_offset :=
                   reclaimed_offset r + scast (push_bit (unat (segment_bits r)) (1 :: 32 word))\<rparr>)
                \<lparr>state := RA_NORMAL\<rparr>
         else r)"

text \<open>
  \<^verbatim>\<open>RA::epoch_reclaimed\<close> reads its cookie before anything else: a \<^verbatim>\<open>NULL\<close> cookie is
  a null-pointer dereference.
\<close>

datatype crash = null_pointer_dereference

definition epoch_reclaimed :: "RA \<Rightarrow> LSN option \<Rightarrow> LSN \<Rightarrow> crash + RA" where
  "epoch_reclaimed g epoch_cookie INVALID_LSN =
     (case epoch_cookie of
        None \<Rightarrow> Inl null_pointer_dereference
      | Some lsn \<Rightarrow>
          let g1 = (if lsn \<noteq> INVALID_LSN then g\<lparr>trim_lsn := lsn\<rparr> else g)
          in Inr (g1\<lparr>ra := map epoch_reclaimed_ra (ra g1)\<rparr>))"

subsection \<open>Runs of one allocator\<close>

text \<open>
  What can happen to one per-socket allocator: a call of \<^verbatim>\<open>allocate\<close> (with the
  outcome of the epoch manager), a call of \<^verbatim>\<open>allocate_cold\<close>, the reclaim daemon
  finishing its round, and the epoch callback \<^verbatim>\<open>epoch_reclaimed\<close> visiting the
  allocator. A call that throws leaves its writes in the allocator.
\<close>

datatype event = Allocate u64 bool | AllocateCold u64 | DaemonFinished | EpochReclaimed

fun step :: "region_allocator \<Rightarrow> event \<Rightarrow> region_allocator" where
  "step r (Allocate sz new_epoch) = snd (allocate r sz new_epoch)"
| "step r (AllocateCold sz) = snd (allocate_cold r sz)"
| "step r DaemonFinished = (case reclaim_daemon_finish r of None \<Rightarrow> r | Some r' \<Rightarrow> r')"
| "step r EpochReclaimed = epoch_reclaimed_ra r"

fun run :: "region_allocator \<Rightarrow> event list \<Rightarrow> region_allocator" where
  "run r [] = r"
| "run r (e # es) = run (step r e) es"

text \<open>
  The invariant of the hot window: \<open>_reclaimed_offset - _allocated_hot_offset\<close>, as a
  difference of integers, lies in \<open>[0, _hot_capacity]\<close>.
\<close>

definition hot_window_inv :: "region_allocator \<Rightarrow> bool" where
  "hot_window_inv r \<longleftrightarrow>
     0 \<le> uint (reclaimed_offset r) - uint (allocated_hot_offset r) \<and>
     uint (reclaimed_offset r) - uint (allocated_hot_offset r) \<le> uint (hot_capacity r)"

text \<open>
  The runs for which the bounds are proved. No addition wraps around \<open>2 ^ 64\<close>: a call of
  \<^verbatim>\<open>allocate\<close> adds its size to the cursor once, or twice when it retries, and
  \<^verbatim>\<open>epoch_reclaimed\<close> adds a segment to \<^verbatim>\<open>_reclaimed_offset\<close> when it finds
  \<^verbatim>\<open>RA_GC_FINISHED\<close>. A call of \<^verbatim>\<open>allocate\<close> may throw, \<^verbatim>\<open>std::bad_alloc\<close> included, and
  the run goes on after it, with one exception: a call of size 0 that requests a GC round
  (it moves an allocator in \<^verbatim>\<open>RA_NORMAL\<close> to \<^verbatim>\<open>RA_GC_REQUESTED\<close> without moving the
  cursor, and then throws the \<^verbatim>\<open>std::runtime_error\<close> that the specification calls fatal)
  ends the run.

  \<open>fetch_and_adds\<close> is the number of additions a call of \<^verbatim>\<open>allocate\<close> makes to the cursor,
  and \<open>gc_requested_in_place\<close> picks out the call of size 0 that ends a run.
\<close>

definition fetch_and_adds :: "region_allocator \<Rightarrow> u64 \<Rightarrow> nat" where
  "fetch_and_adds r sz =
     (let noffset = allocated_hot_offset r + sz
      in if \<not> reclaimed_offset r < noffset \<and> spans r noffset sz \<and> state r = RA_NORMAL
         then 2 else 1)"

fun gc_requested_in_place :: "region_allocator \<Rightarrow> event \<Rightarrow> bool" where
  "gc_requested_in_place r (Allocate sz new_epoch) \<longleftrightarrow>
     sz = 0 \<and> state r = RA_NORMAL \<and> fst (allocate r sz new_epoch) = Inl runtime_error"
| "gc_requested_in_place r (AllocateCold sz) \<longleftrightarrow> False"
| "gc_requested_in_place r DaemonFinished \<longleftrightarrow> False"
| "gc_requested_in_place r EpochReclaimed \<longleftrightarrow> False"

fun admissible :: "region_allocator \<Rightarrow> event \<Rightarrow> bool" where
  "admissible r (Allocate sz new_epoch) \<longleftrightarrow>
     unat (allocated_hot_offset r) + fetch_and_adds r sz * unat sz < 2 ^ 64 \<and>
     \<not> gc_requested_in_place r (Allocate sz new_epoch)"
| "admissible r (AllocateCold sz) \<longleftrightarrow> True"
| "admissible r DaemonFinished \<longleftrightarrow> True"
| "admissible r EpochReclaimed \<longleftrightarrow>
     (if state r = RA_GC_FINISHED
      then unat (reclaimed_offset r) + 2 ^ unat (segment_bits r) < 2 ^ 64 else True)"

fun admissible_run :: "region_allocator \<Rightarrow> event list \<Rightarrow> bool" where
  "admissible_run r [] \<longleftrightarrow> True"
| "admissible_run r (e # es) \<longleftrightarrow>
     admissible r e \<and> admissible_run (step r e) es \<or> es = [] \<and> gc_requested_in_place r e"





section \<open>The reader bitmaps of \<^verbatim>\<open>src/dbcore/serial.cpp\<close>\<close>

text \<open>
  \<^verbatim>\<open>rl_bitmap_t\<close> is declared outside these sources; it is an unsigned integer type,
  here a word of any length \<open>'a\<close> (the type parameter \<open>'w\<close> of the records). An
  \<^verbatim>\<open>ASSERT\<close> that fails ends the call with \<open>None\<close>.
\<close>

record 'w serial =
  claimed_bitmap_entries :: 'w
  tls_bitmap_entry :: 'w

record 'w dbtuple =
  rl_bitmap :: 'w

text \<open>
  The compare-and-swap loop of \<^verbatim>\<open>assign_reader_bitmap_entry\<close>. \<open>mem\<close> is what
  \<^verbatim>\<open>claimed_bitmap_entries\<close> holds when the compare-and-swap runs, and \<open>others\<close> lists
  what other threads make it hold at each later attempt (after the last of them nobody
  else writes the word). The loop ends when the compare-and-swap succeeds, and returns
  the locals \<^verbatim>\<open>old_bitmap\<close> and \<^verbatim>\<open>new_bitmap\<close>; the word then holds \<^verbatim>\<open>new_bitmap\<close>.
\<close>

function assign_retry :: "'a::len word \<Rightarrow> 'a word \<Rightarrow> 'a word list \<Rightarrow> 'a word \<times> 'a word" where
  "assign_retry old_bitmap mem others =
     (let new_bitmap = old_bitmap OR (old_bitmap + 1);
          cur_bitmap = mem
      in if old_bitmap \<noteq> cur_bitmap
         then (case others of
                 [] \<Rightarrow> assign_retry cur_bitmap mem []
               | m # ms \<Rightarrow> assign_retry cur_bitmap m ms)
         else (old_bitmap, new_bitmap))"
  by pat_completeness auto
termination
  by (relation "measure (\<lambda>(old_bitmap, mem, others).
        2 * length others + (if old_bitmap = mem then 0 else 1))") auto

declare assign_retry.simps [simp del]

text \<open>
  \<^verbatim>\<open>assign_reader_bitmap_entry\<close>, run by a thread whose view of the globals is \<open>s\<close>.
  The first element of \<open>others\<close>, if any, is what other threads have stored between the
  first read of \<^verbatim>\<open>claimed_bitmap_entries\<close> and the first compare-and-swap.
\<close>

definition assign_reader_bitmap_entry :: "'a::len word serial \<Rightarrow> 'a word list \<Rightarrow> 'a word serial" where
  "assign_reader_bitmap_entry s others =
     (if tls_bitmap_entry s \<noteq> 0 then s
      else
        let old_bitmap = claimed_bitmap_entries s;
            (old_bitmap, new_bitmap) =
               (case others of
                  [] \<Rightarrow> assign_retry old_bitmap (claimed_bitmap_entries s) []
                | m # ms \<Rightarrow> assign_retry old_bitmap m ms)
        in s\<lparr>claimed_bitmap_entries := new_bitmap,
              tls_bitmap_entry := new_bitmap XOR old_bitmap\<rparr>)"

text \<open>\<^verbatim>\<open>deassign_reader_bitmap_entry\<close>, with its two assertions.\<close>

definition deassign_reader_bitmap_entry :: "'a::len word serial \<Rightarrow> 'a word serial option" where
  "deassign_reader_bitmap_entry s =
     (if tls_bitmap_entry s = 0 then None
      else if claimed_bitmap_entries s AND tls_bitmap_entry s = 0 then None
      else Some (s\<lparr>claimed_bitmap_entries := claimed_bitmap_entries s XOR tls_bitmap_entry s,
                    tls_bitmap_entry := 0\<rparr>))"

text \<open>
  \<^verbatim>\<open>serial_register_reader_tx\<close> and \<^verbatim>\<open>serial_deregister_reader_tx\<close>, for a thread
  whose slot mask is \<open>tls\<close>. Of the tuple only \<^verbatim>\<open>rl_bitmap\<close> is read and written;
  the \<^verbatim>\<open>xid\<close> argument of the former is not used by the code.
\<close>

definition serial_register_reader_tx :: "'a::len word \<Rightarrow> 'a word dbtuple \<Rightarrow> (bool \<times> 'a word dbtuple) option" where
  "serial_register_reader_tx tls t =
     (let old_bitmap = rl_bitmap t
      in if old_bitmap AND tls = 0
         then (let t' = t\<lparr>rl_bitmap := rl_bitmap t OR tls\<rparr>
               in if rl_bitmap t' AND tls \<noteq> 0 then Some (True, t') else None)
         else Some (True, t))"

definition serial_deregister_reader_tx :: "'a::len word \<Rightarrow> 'a word dbtuple \<Rightarrow> 'a word dbtuple option" where
  "serial_deregister_reader_tx tls t =
     (if tls = 0 then None
      else
        let t' = (if rl_bitmap t AND tls \<noteq> 0 then t\<lparr>rl_bitmap := rl_bitmap t XOR tls\<rparr> else t)
        in if rl_bitmap t' AND tls \<noteq> 0 then None else Some t')"

text \<open>
  A transaction that read a tuple several times registers and deregisters as often:
  \<open>n\<close> calls in a row, stopping at a failed assertion.
\<close>

fun register_times :: "nat \<Rightarrow> 'a::len word \<Rightarrow> 'a word dbtuple \<Rightarrow> 'a word dbtuple option" where
  "register_times 0 tls t = Some t"
| "register_times (Suc n) tls t =
     (case serial_register_reader_tx tls t of
        None \<Rightarrow> None
      | Some (ok, t') \<Rightarrow> register_times n tls t')"

fun deregister_times :: "nat \<Rightarrow> 'a::len word \<Rightarrow> 'a word dbtuple \<Rightarrow> 'a word dbtuple option" where
  "deregister_times 0 tls t = Some t"
| "deregister_times (Suc n) tls t =
     (case serial_deregister_reader_tx tls t of
        None \<Rightarrow> None
      | Some t' \<Rightarrow> deregister_times n tls t')"


section \<open>The values of the GC states\<close>

lemmas RA_states = RA_NORMAL_def RA_GC_REQUESTED_def RA_GC_IN_PROG_def RA_GC_FINISHED_def

section \<open>Facts about words\<close>

text \<open>Powers of two in a word, and words read as natural numbers.\<close>

lemma exp_word_nonzero: "k < LENGTH('a) \<Longrightarrow> (2 ^ k :: 'a::len word) \<noteq> 0"
  by (simp add: exp_eq_zero_iff)

lemma unat_exp: "n < LENGTH('a) \<Longrightarrow> unat (2 ^ n :: 'a::len word) = 2 ^ n"
proof -
  assume "n < LENGTH('a)"
  then have "(2 :: nat) ^ n < 2 ^ LENGTH('a)" by simp
  moreover have "(2 ^ n :: 'a word) = word_of_nat (2 ^ n)" by simp
  ultimately show ?thesis by (metis of_nat_inverse)
qed

lemma unat_word_of_nat: "k < 2 ^ LENGTH('a) \<Longrightarrow> unat (word_of_nat k :: 'a::len word) = k"
  by (metis of_nat_inverse)

lemma and_mask_less: "c \<noteq> 0 \<Longrightarrow> x AND (c - 1) < (c :: 'a::len word)"
  using less_eq_dec_iff word_and_le1 by auto

section \<open>Properties of \<^verbatim>\<open>allocate\<close>\<close>

text \<open>One pass through the body of \<^verbatim>\<open>allocate\<close>, the retry left as a call.\<close>

lemma allocate_cases:
  "allocate r sz ne =
     (let noffset = allocated_hot_offset r + sz
      in if reclaimed_offset r < noffset
         then (Inl bad_alloc, r\<lparr>allocated_hot_offset := noffset\<rparr>)
         else if spans r noffset sz
         then (if state r \<noteq> RA_NORMAL
               then (Inl runtime_error,
                     r\<lparr>allocated_hot_offset := noffset, allocated := allocated r + sz\<rparr>)
               else allocate (r\<lparr>allocated_hot_offset := noffset, allocated := allocated r + sz,
                                state := RA_GC_REQUESTED\<rparr>) sz ne)
         else (Inr ((noffset - sz) AND hot_mask r),
               if TRIM_MARK \<le> allocated r + sz \<and> ne
               then r\<lparr>allocated_hot_offset := noffset,
                      allocated := allocated r + sz + (- (allocated r + sz))\<rparr>
               else r\<lparr>allocated_hot_offset := noffset, allocated := allocated r + sz\<rparr>))"
  by (subst allocate.simps) (simp add: Let_def spans_def)

text \<open>
  The retry runs with the state \<^verbatim>\<open>RA_GC_REQUESTED\<close>, so a second chunk that spans a
  boundary throws: the body runs at most twice, and the call is one of six outcomes.
\<close>

lemma allocate_resolved:
  "allocate r sz ne =
     (let n1 = allocated_hot_offset r + sz; n2 = n1 + sz;
          trim = (\<lambda>r'. if TRIM_MARK \<le> allocated r' \<and> ne
                        then r'\<lparr>allocated := allocated r' + (- allocated r')\<rparr> else r')
      in if reclaimed_offset r < n1 then (Inl bad_alloc, r\<lparr>allocated_hot_offset := n1\<rparr>)
         else if \<not> spans r n1 sz
         then (Inr ((n1 - sz) AND hot_mask r),
               trim (r\<lparr>allocated_hot_offset := n1, allocated := allocated r + sz\<rparr>))
         else if state r \<noteq> RA_NORMAL
         then (Inl runtime_error,
               r\<lparr>allocated_hot_offset := n1, allocated := allocated r + sz\<rparr>)
         else if reclaimed_offset r < n2
         then (Inl bad_alloc, r\<lparr>allocated_hot_offset := n2, allocated := allocated r + sz,
                                 state := RA_GC_REQUESTED\<rparr>)
         else if \<not> spans r n2 sz
         then (Inr ((n2 - sz) AND hot_mask r),
               trim (r\<lparr>allocated_hot_offset := n2, allocated := allocated r + sz + sz,
                       state := RA_GC_REQUESTED\<rparr>))
         else (Inl runtime_error,
               r\<lparr>allocated_hot_offset := n2, allocated := allocated r + sz + sz,
                 state := RA_GC_REQUESTED\<rparr>))"
proof -
  have "state (r\<lparr>allocated_hot_offset := a, allocated := b, state := RA_GC_REQUESTED\<rparr>)
          \<noteq> RA_NORMAL" for a b
    by (simp add: RA_states)
  then show ?thesis
    by (subst allocate_cases, subst allocate_cases) (simp add: Let_def spans_def)
qed

text \<open>
  Claim C2. \<^verbatim>\<open>allocate\<close> adds \<open>sz\<close> to \<^verbatim>\<open>_allocated_hot_offset\<close> (once, or twice when it
  retries) and the sum it gets last is \<^verbatim>\<open>noffset\<close>, the cursor it leaves behind. If the
  first sum is above \<^verbatim>\<open>_reclaimed_offset\<close> the call throws \<^verbatim>\<open>std::bad_alloc\<close> with nothing
  but the cursor changed, and in all it throws \<^verbatim>\<open>std::bad_alloc\<close> exactly when
  \<^verbatim>\<open>_reclaimed_offset < noffset\<close>. When it returns, the pointer is
  \<^verbatim>\<open>_hot_data + ((noffset - size) & _hot_mask)\<close>, and this offset is below \<^verbatim>\<open>_hot_capacity\<close>
  for a mask and a capacity as the constructor sets them.
\<close>

theorem allocate_bad_alloc_iff:
  "(reclaimed_offset r < allocated_hot_offset r + sz \<longrightarrow>
      allocate r sz ne =
        (Inl bad_alloc, r\<lparr>allocated_hot_offset := allocated_hot_offset r + sz\<rparr>)) \<and>
   (fst (allocate r sz ne) = Inl bad_alloc \<longleftrightarrow>
      reclaimed_offset r < allocated_hot_offset (snd (allocate r sz ne))) \<and>
   (allocated_hot_offset (snd (allocate r sz ne)) = allocated_hot_offset r + sz \<or>
    allocated_hot_offset (snd (allocate r sz ne)) = allocated_hot_offset r + sz + sz) \<and>
   (\<forall>p. fst (allocate r sz ne) = Inr p \<longrightarrow>
      p = (allocated_hot_offset (snd (allocate r sz ne)) - sz) AND hot_mask r \<and>
      (hot_capacity r \<noteq> 0 \<and> hot_mask r = hot_capacity r - 1 \<longrightarrow> p < hot_capacity r))"
  by (simp add: allocate_resolved Let_def and_mask_less)

theorem allocate_bad_alloc_iff_witness:
  "fst (allocate (region_allocator 30 0) 100 False) = Inr 0 \<and>
   hot_capacity (region_allocator 30 0) \<noteq> 0 \<and>
   hot_mask (region_allocator 30 0) = hot_capacity (region_allocator 30 0) - 1 \<and>
   (0 :: u64) < hot_capacity (region_allocator 30 0) \<and>
   \<not> reclaimed_offset (region_allocator 30 0)
       < allocated_hot_offset (snd (allocate (region_allocator 30 0) 100 False)) \<and>
   fst (allocate (region_allocator 30 0) (2 ^ 32 + 1) False) = Inl bad_alloc \<and>
   reclaimed_offset (region_allocator 30 0)
       < allocated_hot_offset (snd (allocate (region_allocator 30 0) (2 ^ 32 + 1) False))"
  using allocate_bad_alloc_iff [of "region_allocator 30 0" 100 False]
    allocate_bad_alloc_iff [of "region_allocator 30 0" "2 ^ 32 + 1" False]
  by (simp add: allocate_resolved spans_def region_allocator_def NUM_SEGMENT_BITS_def
      TRIM_MARK_def RA_states)

text \<open>
  The capacity and the mask are set by the constructor and never written again, so the
  bound on the returned offset holds for every allocator a run can reach.
\<close>

lemma step_static:
  "segment_bits (step r e) = segment_bits r \<and> hot_capacity (step r e) = hot_capacity r \<and>
   hot_mask (step r e) = hot_mask r \<and> cold_capacity (step r e) = cold_capacity r \<and>
   cold_mask (step r e) = cold_mask r"
  by (cases e)
    (simp_all add: allocate_resolved allocate_cold_def reclaim_daemon_finish_def
      epoch_reclaimed_ra_def Let_def)

lemma run_static:
  "segment_bits (run r es) = segment_bits r \<and> hot_capacity (run r es) = hot_capacity r \<and>
   hot_mask (run r es) = hot_mask r \<and> cold_capacity (run r es) = cold_capacity r \<and>
   cold_mask (run r es) = cold_mask r"
  by (induction es arbitrary: r) (simp_all add: step_static)

lemma region_allocator_hot_fields:
  assumes "unat s < 62"
  shows "hot_capacity (region_allocator s skt) \<noteq> 0 \<and>
         hot_mask (region_allocator s skt) = hot_capacity (region_allocator s skt) - 1"
proof -
  have "unat (2 :: u64) + unat s < 2 ^ LENGTH(64)"
    using assms by simp
  then have hb: "unat (NUM_SEGMENT_BITS + s) = 2 + unat s"
    unfolding NUM_SEGMENT_BITS_def using unat_add_lem [of 2 s] by simp
  have "(2 ^ (2 + unat s) :: u64) \<noteq> 0"
    using assms by (intro exp_word_nonzero) simp
  moreover have "hot_capacity (region_allocator s skt) = 2 ^ (2 + unat s)"
    by (simp add: region_allocator_def Let_def hb)
  moreover have "hot_mask (region_allocator s skt) = hot_capacity (region_allocator s skt) - 1"
    by (simp add: region_allocator_def Let_def)
  ultimately show ?thesis by simp
qed

lemma allocate_pointer_in_hot_region:
  assumes "unat s < 62"
    and "fst (allocate (run (region_allocator s skt) es) sz ne) = Inr p"
  shows "p < hot_capacity (region_allocator s skt)"
proof -
  from assms(2) obtain x where "p = x AND hot_mask (run (region_allocator s skt) es)"
    by (auto simp: allocate_resolved Let_def split: if_splits)
  then show ?thesis
    using region_allocator_hot_fields [OF assms(1), of skt]
    by (simp add: run_static and_mask_less)
qed

text \<open>
  Claim C3. Let \<^verbatim>\<open>noffset\<close> be the first sum, not above \<^verbatim>\<open>_reclaimed_offset\<close>. If
  \<^verbatim>\<open>noffset-1\<close> and \<^verbatim>\<open>noffset-size\<close> lie in different segments, then an allocator that is
  not in \<^verbatim>\<open>RA_NORMAL\<close> throws \<^verbatim>\<open>std::runtime_error\<close>, and one in \<^verbatim>\<open>RA_NORMAL\<close> gives the
  chunk up: it moves to \<^verbatim>\<open>RA_GC_REQUESTED\<close> and runs the allocation again from the
  advanced cursor, so the call ends in \<^verbatim>\<open>RA_GC_REQUESTED\<close> with the cursor at
  \<^verbatim>\<open>noffset + size\<close>. Otherwise the call returns
  \<^verbatim>\<open>_hot_data + ((noffset - size) & _hot_mask)\<close>.
\<close>

theorem allocate_segment_boundary:
  assumes "\<not> reclaimed_offset r < allocated_hot_offset r + sz"
  shows "let noffset = allocated_hot_offset r + sz
         in if spans r noffset sz
            then (if state r \<noteq> RA_NORMAL
                  then allocate r sz ne =
                         (Inl runtime_error,
                          r\<lparr>allocated_hot_offset := noffset, allocated := allocated r + sz\<rparr>)
                  else allocate r sz ne =
                         allocate (r\<lparr>allocated_hot_offset := noffset,
                                     allocated := allocated r + sz,
                                     state := RA_GC_REQUESTED\<rparr>) sz ne \<and>
                       state (snd (allocate r sz ne)) = RA_GC_REQUESTED \<and>
                       allocated_hot_offset (snd (allocate r sz ne)) = noffset + sz)
            else fst (allocate r sz ne) = Inr ((noffset - sz) AND hot_mask r)"
proof -
  have "state (r\<lparr>allocated_hot_offset := a, allocated := b, state := RA_GC_REQUESTED\<rparr>)
          \<noteq> RA_NORMAL" for a b
    by (simp add: RA_states)
  then show ?thesis
    using assms by (simp add: Let_def allocate_resolved spans_def)
qed

theorem allocate_segment_boundary_witness:
  "\<not> reclaimed_offset (region_allocator 4 0) < allocated_hot_offset (region_allocator 4 0) + 10 \<and>
   spans (region_allocator 4 0) (allocated_hot_offset (region_allocator 4 0) + 10) 10 = False \<and>
   fst (allocate (region_allocator 4 0) 10 False) = Inr 0 \<and>
   \<not> reclaimed_offset (snd (allocate (region_allocator 4 0) 10 False))
       < allocated_hot_offset (snd (allocate (region_allocator 4 0) 10 False)) + 10 \<and>
   spans (snd (allocate (region_allocator 4 0) 10 False)) 20 10 \<and>
   state (snd (allocate (snd (allocate (region_allocator 4 0) 10 False)) 10 False))
     = RA_GC_REQUESTED \<and>
   fst (allocate (snd (allocate (region_allocator 4 0) 10 False)) 10 False) = Inr 20"
  using allocate_segment_boundary [of "region_allocator 4 0" 10 False]
    allocate_segment_boundary [of "snd (allocate (region_allocator 4 0) 10 False)" 10 False]
  by (simp add: allocate_resolved spans_def region_allocator_def NUM_SEGMENT_BITS_def
      TRIM_MARK_def RA_states)


section \<open>Properties of \<^verbatim>\<open>allocate_cold\<close>\<close>

lemma cold_fields:
  "unat s < 62 \<Longrightarrow> cold_capacity (region_allocator s skt) = 2 ^ Suc (unat s)"
  "cold_mask (region_allocator s skt) = cold_capacity (region_allocator s skt) - 1"
  "allocated_cold_offset (region_allocator s skt) = 0"
  by (simp_all add: region_allocator_def Let_def)

lemma allocate_cold_frame:
  "cold_capacity (snd (allocate_cold r sz)) = cold_capacity r"
  "cold_mask (snd (allocate_cold r sz)) = cold_mask r"
  "allocated_cold_offset (snd (allocate_cold r sz)) = allocated_cold_offset r + sz"
  by (simp_all add: allocate_cold_def Let_def)

lemma allocate_cold_seq_ok:
  assumes "unat (allocated_cold_offset r) + sum_list (map unat szs) \<le> unat (cold_capacity r)"
  shows "length (allocate_cold_seq r szs) = length szs \<and>
         (\<forall>i < length szs. allocate_cold_seq r szs ! i =
            Inr (word_of_nat (unat (allocated_cold_offset r) + sum_list (map unat (take i szs)))
                 AND cold_mask r))"
  using assms
proof (induction szs arbitrary: r)
  case Nil
  then show ?case by simp
next
  case (Cons sz szs)
  let ?r' = "snd (allocate_cold r sz)"
  have le: "unat (allocated_cold_offset r) + unat sz \<le> unat (cold_capacity r)"
    using Cons.prems by simp
  then have nowrap: "unat (allocated_cold_offset r + sz) = unat (allocated_cold_offset r) + unat sz"
    by (metis unat_add_lem le_less_trans unsigned_less)
  have noraise: "\<not> cold_capacity r < allocated_cold_offset r + sz"
    using le nowrap by (simp add: word_less_nat_alt)
  have hd: "fst (allocate_cold r sz) = Inr (allocated_cold_offset r AND cold_mask r)"
    using noraise by (simp add: allocate_cold_def Let_def)
  have "unat (allocated_cold_offset ?r') + sum_list (map unat szs) \<le> unat (cold_capacity ?r')"
    using Cons.prems nowrap by (simp add: allocate_cold_frame)
  from Cons.IH [OF this]
  have IH: "length (allocate_cold_seq ?r' szs) = length szs"
    "\<And>i. i < length szs \<Longrightarrow> allocate_cold_seq ?r' szs ! i =
       Inr (word_of_nat (unat (allocated_cold_offset r) + unat sz + sum_list (map unat (take i szs)))
            AND cold_mask r)"
    by (simp_all add: allocate_cold_frame nowrap)
  show ?case
  proof (intro conjI allI impI)
    show "length (allocate_cold_seq r (sz # szs)) = length (sz # szs)"
      using IH(1) by simp
    fix i assume "i < length (sz # szs)"
    then show "allocate_cold_seq r (sz # szs) ! i =
       Inr (word_of_nat (unat (allocated_cold_offset r) + sum_list (map unat (take i (sz # szs))))
            AND cold_mask r)"
      using hd IH(2) by (cases i) (simp_all add: add.assoc)
  qed
qed


lemma sum_take_le:
  fixes xs :: "nat list"
  shows "sum_list (take n xs) \<le> sum_list xs"
proof -
  have "sum_list xs = sum_list (take n xs) + sum_list (drop n xs)"
    by (metis append_take_drop_id sum_list_append)
  then show ?thesis by simp
qed

lemma sum_take_Suc:
  fixes xs :: "nat list"
  assumes "i < length xs"
  shows "sum_list (take (Suc i) xs) = sum_list (take i xs) + xs ! i"
  using assms by (simp add: take_Suc_conv_app_nth)

lemma sum_take_mono:
  fixes xs :: "nat list"
  assumes "i \<le> j"
  shows "sum_list (take i xs) \<le> sum_list (take j xs)"
proof -
  have "take i xs = take i (take j xs)" using assms by (simp add: min_def)
  then show ?thesis by (metis sum_take_le)
qed

text \<open>
  Claim C10, as the code has it. The allocator is built with \<open>one_segment_bits = s\<close>, and
  the sizes of the calls of \<^verbatim>\<open>allocate_cold\<close> add up to at most the cold capacity
  \<open>2 * 2 ^ s\<close>. Then no call throws; call \<open>i\<close> returns \<^verbatim>\<open>_cold_data\<close> plus the sum \<open>off i\<close>
  of the earlier sizes masked with \<^verbatim>\<open>_cold_mask\<close>, which is \<open>off i\<close> itself whenever the
  call has a size other than 0; every returned range lies within the cold region, and
  the ranges of two calls are disjoint.
\<close>

theorem allocate_cold_seq_within_capacity:
  fixes szs :: "u64 list"
  assumes s: "unat s < 62" and total: "sum_list (map unat szs) \<le> 2 * 2 ^ unat s"
  shows "let r = region_allocator s skt;
             res = allocate_cold_seq r szs;
             off = (\<lambda>i. sum_list (map unat (take i szs)))
         in length res = length szs \<and>
            (\<forall>i < length szs.
               res ! i = Inr (word_of_nat (off i) AND cold_mask r) \<and>
               (szs ! i \<noteq> 0 \<longrightarrow> res ! i = Inr (word_of_nat (off i))) \<and>
               unat (projr (res ! i)) + unat (szs ! i) \<le> unat (cold_capacity r)) \<and>
            (\<forall>i j. i < j \<and> j < length szs \<longrightarrow>
               {unat (projr (res ! i)) ..< unat (projr (res ! i)) + unat (szs ! i)} \<inter>
               {unat (projr (res ! j)) ..< unat (projr (res ! j)) + unat (szs ! j)} = {})"
proof -
  define r where "r = region_allocator s skt"
  define res where "res = allocate_cold_seq r szs"
  define off where "off = (\<lambda>i. sum_list (map unat (take i szs)))"
  define C :: nat where "C = 2 ^ Suc (unat s)"
  have cap: "cold_capacity r = 2 ^ Suc (unat s)" and msk: "cold_mask r = mask (Suc (unat s))"
    and a0: "allocated_cold_offset r = 0"
    using s by (simp_all add: r_def cold_fields mask_eq_exp_minus_1)
  have ucap: "unat (cold_capacity r) = C"
    using s unat_exp [of "Suc (unat s)", where 'a = 64] by (simp add: cap C_def del: power_Suc)
  have C64: "C < 2 ^ 64"
    unfolding C_def using s by (intro power_strict_increasing) simp_all
  have tot: "sum_list (map unat szs) \<le> C"
    using total by (simp add: C_def)
  from allocate_cold_seq_ok [of r szs]
  have len: "length res = length szs"
    and nth: "\<And>i. i < length szs \<Longrightarrow> res ! i = Inr (word_of_nat (off i) AND cold_mask r)"
    using tot by (simp_all add: a0 ucap res_def off_def)
  have offSuc: "off (Suc i) = off i + unat (szs ! i)" if "i < length szs" for i
    using that sum_take_Suc [of i "map unat szs"] by (simp add: off_def take_map)
  have offle: "off i \<le> C" for i
    using sum_take_le [of i "map unat szs"] tot by (simp add: off_def take_map)
  have offmono: "off i \<le> off j" if "i \<le> j" for i j
    using sum_take_mono [OF that, of "map unat szs"] by (simp add: off_def take_map)
  have below: "unat (word_of_nat (off i) AND cold_mask r :: u64) < C" for i
  proof -
    have "(word_of_nat (off i) AND mask (Suc (unat s)) :: u64) < 2 ^ Suc (unat s)"
      using s by (intro and_mask_less') simp
    then show ?thesis
      using ucap by (simp add: msk cap word_less_nat_alt del: power_Suc)
  qed
  have exact: "(word_of_nat (off i) AND cold_mask r :: u64) = word_of_nat (off i) \<and>
               unat (word_of_nat (off i) :: u64) = off i"
    if "off i < C" for i
  proof -
    have u: "unat (word_of_nat (off i) :: u64) = off i"
      using that C64 by (intro unat_word_of_nat) simp
    have "(word_of_nat (off i) :: u64) < 2 ^ Suc (unat s)"
      using u that ucap by (simp add: word_less_nat_alt cap del: power_Suc)
    then show ?thesis using u s by (simp add: msk less_mask_eq del: power_Suc)
  qed
  have nz: "off i < C" if "i < length szs" "szs ! i \<noteq> 0" for i
  proof -
    have "unat (szs ! i) \<noteq> 0" using that(2) by (metis unat_eq_zero)
    moreover have "off i + unat (szs ! i) \<le> C"
      using offSuc [OF that(1)] offle [of "Suc i"] by simp
    ultimately show ?thesis by simp
  qed
  have part2: "res ! i = Inr (word_of_nat (off i) AND cold_mask r) \<and>
               (szs ! i \<noteq> 0 \<longrightarrow> res ! i = Inr (word_of_nat (off i))) \<and>
               unat (projr (res ! i)) + unat (szs ! i) \<le> unat (cold_capacity r)"
    if i: "i < length szs" for i
  proof (cases "szs ! i = 0")
    case True
    then show ?thesis using nth [OF i] below [of i] by (simp add: ucap)
  next
    case False
    from exact [OF nz [OF i False]] offSuc [OF i] offle [of "Suc i"]
    show ?thesis using nth [OF i] by (simp add: ucap)
  qed
  have part3: "{unat (projr (res ! i)) ..< unat (projr (res ! i)) + unat (szs ! i)} \<inter>
               {unat (projr (res ! j)) ..< unat (projr (res ! j)) + unat (szs ! j)} = {}"
    if ij: "i < j" "j < length szs" for i j
  proof (cases "szs ! i = 0 \<or> szs ! j = 0")
    case True
    then show ?thesis by auto
  next
    case False
    have i: "i < length szs" using ij by simp
    have pi: "unat (projr (res ! i)) = off i"
      using exact [OF nz [OF i]] False nth [OF i] by simp
    have pj: "unat (projr (res ! j)) = off j"
      using exact [OF nz [OF ij(2)]] False nth [OF ij(2)] by simp
    have "off i + unat (szs ! i) \<le> off j"
      using offSuc [OF i] offmono [of "Suc i" j] ij(1) by simp
    then show ?thesis by (auto simp: pi pj)
  qed
  show ?thesis
    unfolding Let_def r_def [symmetric] res_def [symmetric] off_def [symmetric]
    using len part2 part3 by blast
qed


theorem allocate_cold_seq_within_capacity_witness:
  "unat (4 :: u64) < 62 \<and> sum_list (map unat [10, 0, 22, 0 :: u64]) \<le> 2 * 2 ^ unat (4 :: u64) \<and>
   allocate_cold_seq (region_allocator 4 0) [10, 0, 22, 0] = [Inr 0, Inr 10, Inr 10, Inr 0]"
  using allocate_cold_seq_within_capacity [of 4 "[10, 0, 22, 0]" 0]
  by (simp add: allocate_cold_def region_allocator_def NUM_SEGMENT_BITS_def RA_states)

text \<open>
  Claim C10 as stated fails for a call of size 0 on a full region. With the default
  \<open>2 ^ 30\<close>-byte segments, after one call for the whole cold capacity of \<open>2 ^ 31\<close> bytes a call
  of size 0 returns \<^verbatim>\<open>_cold_data + 0\<close>, not \<^verbatim>\<open>_cold_data\<close> plus the \<open>2 ^ 31\<close> bytes
  allocated before it: \<^verbatim>\<open>& _cold_mask\<close> is not the identity on the offset \<open>2 ^ 31\<close>.
\<close>

theorem allocate_cold_zero_size_on_full_region:
  "sum_list (map unat [2 ^ 31, 0 :: u64]) \<le> 2 * 2 ^ unat (30 :: u64) \<and>
   allocate_cold_seq (region_allocator 30 0) [2 ^ 31, 0] = [Inr 0, Inr 0] \<and>
   allocate_cold_seq (region_allocator 30 0) [2 ^ 31, 0] ! 1
     \<noteq> Inr (word_of_nat (sum_list (map unat (take 1 [2 ^ 31, 0 :: u64]))))"
  by (simp add: allocate_cold_def region_allocator_def NUM_SEGMENT_BITS_def RA_states)

section \<open>Properties of the epoch callbacks\<close>

lemma epoch_ended_loop_None:
  "epoch_ended_loop rs act cur ivl = None \<longleftrightarrow>
     \<not> (\<exists>r \<in> set rs. state r = RA_GC_REQUESTED \<or> state r = RA_GC_FINISHED)"
  by (induction rs) (auto simp: Let_def)

lemma epoch_ended_loop_Some:
  "epoch_ended_loop rs act cur ivl \<noteq> None \<Longrightarrow>
     epoch_ended_loop rs act cur ivl = Some (if act then cur else ivl)"
  by (induction rs) (auto simp: Let_def split: if_splits)

text \<open>
  Claim C8. If some allocator is in \<^verbatim>\<open>RA_GC_REQUESTED\<close> or \<^verbatim>\<open>RA_GC_FINISHED\<close> and no RCU
  region is active (the call at thread exit), the cookie of \<^verbatim>\<open>epoch_ended\<close> holds
  \<^verbatim>\<open>INVALID_LSN\<close>. Given such a cookie, \<^verbatim>\<open>epoch_reclaimed\<close> leaves \<^verbatim>\<open>trim_lsn\<close> as it is and
  still runs the GC state handling on every allocator.
\<close>

theorem epoch_ended_thread_exit_cookie:
  assumes "\<exists>r \<in> set (ra g). state r = RA_GC_REQUESTED \<or> state r = RA_GC_FINISHED"
  shows "epoch_ended g False cur_lsn INVALID_LSN = Some INVALID_LSN \<and>
         epoch_reclaimed g' (Some INVALID_LSN) INVALID_LSN =
           Inr (g'\<lparr>ra := map epoch_reclaimed_ra (ra g')\<rparr>) \<and>
         trim_lsn (g'\<lparr>ra := map epoch_reclaimed_ra (ra g')\<rparr>) = trim_lsn g'"
  using assms epoch_ended_loop_Some [of "ra g" False cur_lsn INVALID_LSN]
  by (simp add: epoch_ended_def epoch_reclaimed_def epoch_ended_loop_None)

theorem epoch_ended_thread_exit_cookie_witness:
  "(\<exists>r \<in> set (ra \<lparr>ra = [region_allocator 30 0,
                          (region_allocator 30 1)\<lparr>state := RA_GC_FINISHED\<rparr>],
                    trim_lsn = 7\<rparr>).
      state r = RA_GC_REQUESTED \<or> state r = RA_GC_FINISHED) \<and>
   epoch_ended \<lparr>ra = [region_allocator 30 0,
                      (region_allocator 30 1)\<lparr>state := RA_GC_FINISHED\<rparr>],
                trim_lsn = 7\<rparr> False 5 0 = Some 0 \<and>
   trim_lsn (projr (epoch_reclaimed
     \<lparr>ra = [region_allocator 30 0, (region_allocator 30 1)\<lparr>state := RA_GC_FINISHED\<rparr>],
       trim_lsn = 7\<rparr> (Some 0) 0)) = 7 \<and>
   map state (ra (projr (epoch_reclaimed
     \<lparr>ra = [region_allocator 30 0, (region_allocator 30 1)\<lparr>state := RA_GC_FINISHED\<rparr>],
       trim_lsn = 7\<rparr> (Some 0) 0))) = [RA_NORMAL, RA_NORMAL]"
proof -
  have h: "\<exists>r \<in> set (ra \<lparr>ra = [region_allocator 30 0,
                                (region_allocator 30 1)\<lparr>state := RA_GC_FINISHED\<rparr>],
                          trim_lsn = 7\<rparr>).
      state r = RA_GC_REQUESTED \<or> state r = RA_GC_FINISHED"
    by simp
  show ?thesis
    using h epoch_ended_thread_exit_cookie [OF h, of 5 0
        "\<lparr>ra = [region_allocator 30 0, (region_allocator 30 1)\<lparr>state := RA_GC_FINISHED\<rparr>],
          trim_lsn = 7\<rparr>"]
    by (simp add: epoch_reclaimed_ra_def region_allocator_def NUM_SEGMENT_BITS_def RA_states)
qed

text \<open>
  Claim C9. \<^verbatim>\<open>epoch_ended\<close> returns a cookie other than \<^verbatim>\<open>NULL\<close> if and only if some
  allocator is in \<^verbatim>\<open>RA_GC_REQUESTED\<close> or \<^verbatim>\<open>RA_GC_FINISHED\<close>; and \<^verbatim>\<open>epoch_reclaimed\<close>
  dereferences a null pointer if and only if its cookie is \<^verbatim>\<open>NULL\<close>.
\<close>

theorem epoch_ended_cookie_iff:
  "(epoch_ended g rcu_is_active cur_lsn INVALID_LSN \<noteq> None \<longleftrightarrow>
      (\<exists>r \<in> set (ra g). state r = RA_GC_REQUESTED \<or> state r = RA_GC_FINISHED)) \<and>
   (epoch_reclaimed g epoch_cookie INVALID_LSN = Inl null_pointer_dereference \<longleftrightarrow>
      epoch_cookie = None)"
  by (auto simp: epoch_ended_def epoch_reclaimed_def epoch_ended_loop_None Let_def
           split: option.splits)

theorem epoch_ended_cookie_iff_witness:
  "epoch_ended \<lparr>ra = [region_allocator 30 0, region_allocator 30 1], trim_lsn = 7\<rparr>
     True 5 0 = None \<and>
   epoch_reclaimed \<lparr>ra = [region_allocator 30 0, region_allocator 30 1], trim_lsn = 7\<rparr>
     (epoch_ended \<lparr>ra = [region_allocator 30 0, region_allocator 30 1], trim_lsn = 7\<rparr>
        True 5 0) 0 = Inl null_pointer_dereference"
  using epoch_ended_cookie_iff [of
      "\<lparr>ra = [region_allocator 30 0, region_allocator 30 1], trim_lsn = 7\<rparr>" True 5 0 None]
  by (simp add: region_allocator_def NUM_SEGMENT_BITS_def RA_states)



text \<open>
  Claim C5, at a configuration where the code does not do what the claim says. For an
  allocator built with \<^verbatim>\<open>one_segment_bits = 31\<close> and in \<^verbatim>\<open>RA_GC_FINISHED\<close>, \<^verbatim>\<open>1 << 31\<close> is
  \<^verbatim>\<open>INT_MIN\<close>, and \<^verbatim>\<open>epoch_reclaimed\<close> moves \<^verbatim>\<open>_reclaimed_offset\<close> down by \<open>2 ^ 31\<close> instead
  of up.
\<close>

theorem epoch_reclaimed_int_shift_31:
  "reclaimed_offset (epoch_reclaimed_ra ((region_allocator 31 0)\<lparr>state := RA_GC_FINISHED\<rparr>))
     = reclaimed_offset (region_allocator 31 0) - 2 ^ 31 \<and>
   reclaimed_offset (epoch_reclaimed_ra ((region_allocator 31 0)\<lparr>state := RA_GC_FINISHED\<rparr>))
     \<noteq> reclaimed_offset (region_allocator 31 0) + 2 ^ 31 \<and>
   state (epoch_reclaimed_ra ((region_allocator 31 0)\<lparr>state := RA_GC_FINISHED\<rparr>)) = RA_NORMAL"
  by (simp add: epoch_reclaimed_ra_def region_allocator_def RA_states NUM_SEGMENT_BITS_def)

section \<open>The hot window\<close>



























text \<open>
  Why a call of size 0 that requests a GC round ends the run: if the run went on past its
  \<^verbatim>\<open>std::runtime_error\<close>, the round would complete with the cursor where it was, and
  \<^verbatim>\<open>_reclaimed_offset\<close> would be five segments above it.
\<close>

lemma hot_window_inv_fails_after_zero_size:
  "gc_requested_in_place (region_allocator 30 0) (Allocate 0 False) \<and>
   \<not> admissible_run (region_allocator 30 0)
       [Allocate 0 False, EpochReclaimed, DaemonFinished, EpochReclaimed] \<and>
   \<not> hot_window_inv (run (region_allocator 30 0)
          [Allocate 0 False, EpochReclaimed, DaemonFinished, EpochReclaimed])"
  by (simp add: allocate_resolved spans_def fetch_and_adds_def hot_window_inv_def
      epoch_reclaimed_ra_def reclaim_daemon_finish_def region_allocator_def NUM_SEGMENT_BITS_def
      TRIM_MARK_def RA_states)

section \<open>Properties of the reader bitmaps\<close>

text \<open>
  Claim C4, at the input where the code does not do what the claim says. With every bit
  of a 64-bit \<^verbatim>\<open>claimed_bitmap_entries\<close> set, \<^verbatim>\<open>old_bitmap + 1\<close> wraps to 0, the
  compare-and-swap succeeds without changing the word, and the call returns with
  \<^verbatim>\<open>tls_bitmap_entry = 0\<close>: no error is raised.
\<close>

theorem assign_reader_bitmap_entry_exhausted:
  "assign_reader_bitmap_entry
      \<lparr>claimed_bitmap_entries = (0xFFFFFFFFFFFFFFFF :: 64 word), tls_bitmap_entry = 0\<rparr> [] =
    \<lparr>claimed_bitmap_entries = 0xFFFFFFFFFFFFFFFF, tls_bitmap_entry = 0\<rparr>"
  by (simp add: assign_reader_bitmap_entry_def assign_retry.simps)

text \<open>
  The same for every width, and what the assertions of the other functions make of a
  thread whose slot mask is 0.
\<close>

lemma assign_exhausted_any_width:
  "assign_reader_bitmap_entry
      \<lparr>claimed_bitmap_entries = (- 1 :: 'a::len word), tls_bitmap_entry = 0\<rparr> [] =
    \<lparr>claimed_bitmap_entries = - 1, tls_bitmap_entry = 0\<rparr>"
  by (simp add: assign_reader_bitmap_entry_def assign_retry.simps)

lemma zero_slot_assertions_fail:
  "serial_register_reader_tx 0 t = None"
  "serial_deregister_reader_tx 0 t = None"
  "deassign_reader_bitmap_entry \<lparr>claimed_bitmap_entries = c, tls_bitmap_entry = 0\<rparr> = None"
  by (simp_all add: serial_register_reader_tx_def serial_deregister_reader_tx_def
      deassign_reader_bitmap_entry_def)

text \<open>A single-bit mask, and what the bit operations of the code do with it.\<close>

lemma or_single_bit: "w OR 2 ^ k = set_bit k (w :: 'a::len word)"
  by (rule bit_word_eqI) (auto simp: bit_simps)

lemma xor_single_bit: "bit w k \<Longrightarrow> w XOR 2 ^ k = unset_bit k (w :: 'a::len word)"
  by (rule bit_word_eqI) (auto simp: bit_simps)

lemma unset_absent: "\<not> bit w k \<Longrightarrow> unset_bit k (w :: 'a::len word) = w"
  by (rule bit_word_eqI) (auto simp: bit_simps)

lemma set_present: "bit w k \<Longrightarrow> set_bit k (w :: 'a::len word) = w"
  by (rule bit_word_eqI) (auto simp: bit_simps)

lemma register_single_bit:
  "k < LENGTH('a) \<Longrightarrow>
   serial_register_reader_tx (2 ^ k :: 'a::len word) t =
     Some (True, t\<lparr>rl_bitmap := set_bit k (rl_bitmap t)\<rparr>)"
  by (simp add: serial_register_reader_tx_def Let_def and_exp_eq_0_iff_not_bit
      exp_word_nonzero or_single_bit set_present bit_simps)

lemma deregister_single_bit:
  "k < LENGTH('a) \<Longrightarrow>
   serial_deregister_reader_tx (2 ^ k :: 'a::len word) t =
     Some (t\<lparr>rl_bitmap := unset_bit k (rl_bitmap t)\<rparr>)"
  by (simp add: serial_deregister_reader_tx_def Let_def and_exp_eq_0_iff_not_bit
      exp_word_nonzero xor_single_bit unset_absent bit_simps)

lemma register_times_single_bit:
  "k < LENGTH('a) \<Longrightarrow>
   register_times n (2 ^ k :: 'a::len word) t =
     Some (if n = 0 then t else t\<lparr>rl_bitmap := set_bit k (rl_bitmap t)\<rparr>)"
proof (induction n arbitrary: t)
  case 0
  then show ?case by simp
next
  case (Suc n)
  then show ?case by (simp add: register_single_bit set_present bit_simps)
qed

lemma deregister_times_single_bit:
  "k < LENGTH('a) \<Longrightarrow>
   deregister_times n (2 ^ k :: 'a::len word) t =
     Some (if n = 0 then t else t\<lparr>rl_bitmap := unset_bit k (rl_bitmap t)\<rparr>)"
proof (induction n arbitrary: t)
  case 0
  then show ?case by simp
next
  case (Suc n)
  then show ?case by (simp add: deregister_single_bit unset_absent bit_simps)
qed

text \<open>
  Claim C6. A thread holds the single-bit mask \<open>m = 2 ^ k\<close>. After it registered as a
  reader of the tuple \<open>j\<close> times (any \<open>j\<close>, also 0) and then called
  \<^verbatim>\<open>serial_deregister_reader_tx\<close> once or more (\<open>Suc n\<close> times), no assertion has failed,
  \<^verbatim>\<open>rl_bitmap & m\<close> is 0 and the other bits of \<^verbatim>\<open>rl_bitmap\<close> are what they were before
  the deregistration (in \<open>t1\<close>) and before the registration (in \<open>t\<close>); one more call
  changes nothing.
\<close>

theorem serial_deregister_reader_tx_clears_bit:
  fixes t :: "'a::len word dbtuple"
  assumes "k < LENGTH('a)" and "m = 2 ^ k"
  shows "\<exists>t1 t2. register_times j m t = Some t1 \<and>
           deregister_times (Suc n) m t1 = Some t2 \<and>
           rl_bitmap t2 AND m = 0 \<and>
           rl_bitmap t2 AND NOT m = rl_bitmap t1 AND NOT m \<and>
           rl_bitmap t2 AND NOT m = rl_bitmap t AND NOT m \<and>
           serial_deregister_reader_tx m t2 = Some t2"
proof -
  have a: "unset_bit k w AND 2 ^ k = 0" for w :: "'a word"
    using assms(1) by (simp add: and_exp_eq_0_iff_not_bit bit_simps)
  have b: "unset_bit k w AND NOT (2 ^ k) = w AND NOT (2 ^ k)" for w :: "'a word"
    by (rule bit_word_eqI) (auto simp: bit_simps)
  have c: "unset_bit k (set_bit k w) = unset_bit k w" for w :: "'a word"
    by (rule bit_word_eqI) (auto simp: bit_simps)
  have d: "unset_bit k (unset_bit k w) = unset_bit k w" for w :: "'a word"
    by (rule bit_word_eqI) (auto simp: bit_simps)
  have e: "set_bit k w AND NOT (2 ^ k) = w AND NOT (2 ^ k)" for w :: "'a word"
    by (rule bit_word_eqI) (auto simp: bit_simps)
  show ?thesis
    using assms(1)
    by (simp add: assms(2) register_times_single_bit deregister_times_single_bit
        deregister_single_bit a b c d e del: deregister_times.simps)
qed

theorem serial_deregister_reader_tx_clears_bit_witness:
  "(2::nat) < LENGTH(8) \<and> (4 :: 8 word) = 2 ^ 2 \<and>
   (\<exists>t1 t2. register_times 3 (4 :: 8 word) \<lparr>rl_bitmap = 9\<rparr> = Some t1 \<and>
           deregister_times (Suc 2) 4 t1 = Some t2 \<and>
           rl_bitmap t2 AND 4 = 0 \<and>
           rl_bitmap t2 AND NOT 4 = rl_bitmap t1 AND NOT 4 \<and>
           rl_bitmap t2 AND NOT 4 = rl_bitmap \<lparr>rl_bitmap = (9 :: 8 word)\<rparr> AND NOT 4 \<and>
           serial_deregister_reader_tx 4 t2 = Some t2)"
proof -
  have h1: "(2::nat) < LENGTH(8)" by simp
  have h2: "(4 :: 8 word) = 2 ^ 2" by simp
  show ?thesis
    using h1 h2 serial_deregister_reader_tx_clears_bit [OF h1 h2, of 3 "\<lparr>rl_bitmap = 9\<rparr>" 2]
    by simp
qed

text \<open>
  The lowest unset bit of a word that has one: \<^verbatim>\<open>b | (b+1)\<close> sets it, and the exclusive or
  with \<open>b\<close> leaves it alone.
\<close>

lemma word_not_all_ones:
  fixes b :: "'a::len word"
  assumes "b \<noteq> - 1"
  shows "\<exists>k < LENGTH('a). \<not> bit b k"
proof (rule ccontr)
  assume "\<not> ?thesis"
  then have "b = - 1" by (intro bit_word_eqI) (simp add: bit_simps)
  with assms show False by simp
qed

lemma succ_low_ones:
  fixes b :: "'a::len word"
  assumes low: "\<forall>j<k. bit b j" and k: "\<not> bit b k"
  shows "b + 1 = push_bit k (drop_bit k b OR 1)"
proof -
  have tb: "take_bit k b = mask k"
    using low by (intro bit_word_eqI) (auto simp: bit_simps)
  have ev: "even (drop_bit k b)"
    using k by (simp add: bit_iff_odd_drop_bit)
  have "b + 1 = push_bit k (drop_bit k b) + take_bit k b + 1"
    by (simp add: bits_ident)
  also have "\<dots> = push_bit k (drop_bit k b) + 2 ^ k"
    by (simp add: tb mask_eq_exp_minus_1)
  also have "\<dots> = push_bit k (drop_bit k b + 1)"
    by (simp add: push_bit_add)
  also have "drop_bit k b + 1 = drop_bit k b OR 1"
    using ev by (simp add: or_one_eq)
  finally show ?thesis .
qed

lemma lowest_unset_bit:
  fixes b :: "'a::len word"
  assumes "b \<noteq> - 1"
  shows "\<exists>k < LENGTH('a). \<not> bit b k \<and> (\<forall>j<k. bit b j) \<and>
           b OR (b + 1) = set_bit k b \<and> (b OR (b + 1)) XOR b = 2 ^ k"
proof -
  define k where "k = (LEAST k. \<not> bit b k)"
  obtain k0 where k0: "k0 < LENGTH('a)" "\<not> bit b k0"
    using word_not_all_ones [OF assms] by blast
  have nk: "\<not> bit b k" unfolding k_def using k0(2) by (rule LeastI)
  have kle: "k \<le> k0" unfolding k_def using k0(2) by (rule Least_le)
  have low: "\<forall>j<k. bit b j" unfolding k_def using not_less_Least by blast
  have s: "b + 1 = push_bit k (drop_bit k b OR 1)"
    using low nk by (rule succ_low_ones)
  have 1: "b OR (b + 1) = set_bit k b"
    unfolding s using kle k0(1) by (intro bit_word_eqI) (auto simp: bit_simps)
  have 2: "set_bit k b XOR b = 2 ^ k"
    using nk by (intro bit_word_eqI) (auto simp: bit_simps)
  show ?thesis using nk low kle k0(1) 1 2 by (intro exI [of _ k]) simp
qed

text \<open>
  The compare-and-swap loop ends with \<^verbatim>\<open>old_bitmap\<close> one of the values the word held when
  a compare-and-swap ran.
\<close>

lemma assign_retry_result:
  "\<exists>c \<in> set (mem # others). assign_retry old mem others = (c, c OR (c + 1))"
proof (induction old mem others rule: assign_retry.induct)
  case (1 old_bitmap mem others)
  show ?case
  proof (cases "old_bitmap = mem")
    case True
    then show ?thesis by (subst assign_retry.simps) simp
  next
    case False
    show ?thesis
    proof (cases others)
      case Nil
      with False 1(1) [OF refl refl _ Nil] show ?thesis
        by (subst assign_retry.simps) simp
    next
      case (Cons m ms)
      with False 1(2) [OF refl refl _ Cons] show ?thesis
        by (subst assign_retry.simps) auto
    qed
  qed
qed

text \<open>
  Claim C7. A thread without a slot calls \<^verbatim>\<open>assign_reader_bitmap_entry\<close>; \<open>b\<close> is the
  claimed word it reads and \<open>others\<close> what other threads store while it retries (nothing,
  in a run without interference: then \<open>c\<close> below is \<open>b\<close>). If all these words have an unset
  bit, the compare-and-swap succeeds on one of them, \<open>c\<close>, and with \<open>k\<close> the lowest unset
  bit of \<open>c\<close>: \<^verbatim>\<open>tls_bitmap_entry\<close> becomes \<^verbatim>\<open>(c | (c+1)) ^ c\<close>, which is the single bit
  \<open>2 ^ k\<close>, and the claimed word becomes \<open>c\<close> with bit \<open>k\<close> set.
  \<^verbatim>\<open>deassign_reader_bitmap_entry\<close> then clears bit \<open>k\<close> of the claimed word, whatever its
  other bits have become, and zeroes \<^verbatim>\<open>tls_bitmap_entry\<close>.
\<close>

theorem assign_reader_bitmap_entry_lowest_unset_bit:
  fixes b :: "'a::len word"
  assumes "\<forall>c \<in> set (b # others). c \<noteq> - 1"
  shows "\<exists>c \<in> set (b # others). \<exists>k < LENGTH('a).
           \<not> bit c k \<and> (\<forall>j<k. bit c j) \<and> (c OR (c + 1)) XOR c = 2 ^ k \<and>
           assign_reader_bitmap_entry \<lparr>claimed_bitmap_entries = b, tls_bitmap_entry = 0\<rparr> others =
             \<lparr>claimed_bitmap_entries = set_bit k c, tls_bitmap_entry = 2 ^ k\<rparr> \<and>
           (\<forall>d :: 'a word. bit d k \<longrightarrow>
              deassign_reader_bitmap_entry \<lparr>claimed_bitmap_entries = d, tls_bitmap_entry = 2 ^ k\<rparr> =
                Some \<lparr>claimed_bitmap_entries = unset_bit k d, tls_bitmap_entry = 0\<rparr>) \<and>
           deassign_reader_bitmap_entry
               \<lparr>claimed_bitmap_entries = set_bit k c, tls_bitmap_entry = 2 ^ k\<rparr> =
             Some \<lparr>claimed_bitmap_entries = c, tls_bitmap_entry = 0\<rparr>"
proof -
  have "\<exists>c \<in> set (b # others).
          (case others of [] \<Rightarrow> assign_retry b b [] | m # ms \<Rightarrow> assign_retry b m ms) =
            (c, c OR (c + 1))"
  proof (cases others)
    case Nil
    then show ?thesis using assign_retry_result [of b "[]" b] by simp
  next
    case (Cons m ms)
    then show ?thesis using assign_retry_result [of m ms b] by auto
  qed
  then obtain c where c: "c \<in> set (b # others)"
    and r: "(case others of [] \<Rightarrow> assign_retry b b [] | m # ms \<Rightarrow> assign_retry b m ms) =
              (c, c OR (c + 1))"
    by blast
  from c assms have "c \<noteq> - 1" by blast
  from lowest_unset_bit [OF this]
  obtain k where k: "k < LENGTH('a)" "\<not> bit c k" "\<forall>j<k. bit c j"
    "c OR (c + 1) = set_bit k c" "(c OR (c + 1)) XOR c = 2 ^ k"
    by blast
  have asg: "assign_reader_bitmap_entry \<lparr>claimed_bitmap_entries = b, tls_bitmap_entry = 0\<rparr> others =
               \<lparr>claimed_bitmap_entries = set_bit k c, tls_bitmap_entry = 2 ^ k\<rparr>"
  proof (cases others)
    case Nil
    with r k(4,5) show ?thesis by (simp add: assign_reader_bitmap_entry_def)
  next
    case (Cons m ms)
    with r k(4,5) show ?thesis by (simp add: assign_reader_bitmap_entry_def)
  qed
  have de: "deassign_reader_bitmap_entry \<lparr>claimed_bitmap_entries = d, tls_bitmap_entry = 2 ^ k\<rparr> =
              Some \<lparr>claimed_bitmap_entries = unset_bit k d, tls_bitmap_entry = 0\<rparr>"
    if "bit d k" for d :: "'a word"
    using that k(1)
    by (simp add: deassign_reader_bitmap_entry_def and_exp_eq_0_iff_not_bit exp_word_nonzero
        xor_single_bit)
  have restore: "unset_bit k (set_bit k c) = c"
    using k(2) by (intro bit_word_eqI) (auto simp: bit_simps)
  have "bit (set_bit k c) k"
    using k(1) by (simp add: bit_simps)
  from de [OF this] have de2:
    "deassign_reader_bitmap_entry
        \<lparr>claimed_bitmap_entries = set_bit k c, tls_bitmap_entry = 2 ^ k\<rparr> =
      Some \<lparr>claimed_bitmap_entries = c, tls_bitmap_entry = 0\<rparr>"
    by (simp add: restore)
  show ?thesis
  proof (rule bexI [OF _ c], rule exI [of _ k], intro conjI allI impI)
    show "k < LENGTH('a)" by (rule k(1))
    show "\<not> bit c k" by (rule k(2))
    show "bit c j" if "j < k" for j using k(3) that by simp
    show "(c OR (c + 1)) XOR c = 2 ^ k" by (rule k(5))
  qed (simp_all add: asg de de2)
qed

theorem assign_reader_bitmap_entry_lowest_unset_bit_witness:
  "(11 :: 8 word) \<noteq> - 1 \<and> (15 :: 8 word) \<noteq> - 1 \<and>
   assign_reader_bitmap_entry \<lparr>claimed_bitmap_entries = (11 :: 8 word), tls_bitmap_entry = 0\<rparr> [] =
     \<lparr>claimed_bitmap_entries = 15, tls_bitmap_entry = 4\<rparr> \<and>
   assign_reader_bitmap_entry \<lparr>claimed_bitmap_entries = (11 :: 8 word), tls_bitmap_entry = 0\<rparr> [15] =
     \<lparr>claimed_bitmap_entries = 31, tls_bitmap_entry = 16\<rparr> \<and>
   deassign_reader_bitmap_entry \<lparr>claimed_bitmap_entries = (15 :: 8 word), tls_bitmap_entry = 4\<rparr> =
     Some \<lparr>claimed_bitmap_entries = 11, tls_bitmap_entry = 0\<rparr>"
proof -
  have h1: "\<forall>c \<in> set ((11 :: 8 word) # []). c \<noteq> - 1" by simp
  have h2: "\<forall>c \<in> set ((11 :: 8 word) # [15]). c \<noteq> - 1" by simp
  show ?thesis
    using assign_reader_bitmap_entry_lowest_unset_bit [OF h1]
      assign_reader_bitmap_entry_lowest_unset_bit [OF h2]
    by (simp add: assign_reader_bitmap_entry_def assign_retry.simps
        deassign_reader_bitmap_entry_def)
qed

end
